theory Spec2Isabelle
  imports Main
begin

section \<open>Frames and the image primitives used by the scripts\<close>

text \<open>
  A decoded frame is a numpy array: a shape (rows, columns) and the pixel buffer, read
  by (row, column). The pixel type is left open (a BGR triple in the scripts).
  The shape is kept beside the buffer, as numpy does, so that an array with no rows
  still has a width.
\<close>

record 'a frame =
  height :: nat
  width :: nat
  pixels :: "'a list list"

text \<open>The array of shape (h, w) whose pixel at (r, c) is \<open>f r c\<close>.\<close>

definition mk_frame :: "nat \<Rightarrow> nat \<Rightarrow> (nat \<Rightarrow> nat \<Rightarrow> 'a) \<Rightarrow> 'a frame" where
  "mk_frame h w f =
     \<lparr>height = h, width = w, pixels = map (\<lambda>r. map (\<lambda>c. f r c) [0..<w]) [0..<h]\<rparr>"

text \<open>\<open>img[r, c]\<close> for indices inside the shape.\<close>

definition px :: "'a frame \<Rightarrow> nat \<Rightarrow> nat \<Rightarrow> 'a" where
  "px img r c = pixels img ! r ! c"

text \<open>The errors the library and the interpreter raise.\<close>

datatype py_error = CvError | ZeroDivisionError | FileNotFoundError | OSError

text \<open>
  \<open>cv2.resize(src, (w, h))\<close>: the library refuses an empty source and a target size
  with a side that is not positive or does not fit a C int, that is, exceeds
  \<open>2^31 - 1\<close> (it raises \<open>cv2.error\<close>); otherwise the result has h rows and w
  columns. Whether the machine has the memory for a very large result is not part of
  the model: the properties of the split are stated on the resize having returned. The value of each result pixel is the library's interpolation, which
  is floating point arithmetic outside the repository: it is the parameter
  \<open>interp src w h r c\<close>.
\<close>

definition cv2_resize ::
  "('a frame \<Rightarrow> nat \<Rightarrow> nat \<Rightarrow> nat \<Rightarrow> nat \<Rightarrow> 'a) \<Rightarrow> 'a frame \<Rightarrow> int \<times> int \<Rightarrow> py_error + 'a frame" where
  "cv2_resize interp src dsize =
     (case dsize of (w, h) \<Rightarrow>
        if height src = 0 \<or> width src = 0 \<or> w \<le> 0 \<or> h \<le> 0 \<or>
           2147483647 < w \<or> 2147483647 < h
        then Inl CvError
        else Inr (mk_frame (nat h) (nat w) (interp src (nat w) (nat h))))"

text \<open>\<open>cv2.transpose\<close>: result pixel (r, c) is source pixel (c, r).\<close>

definition cv2_transpose :: "'a frame \<Rightarrow> 'a frame" where
  "cv2_transpose src = mk_frame (width src) (height src) (\<lambda>r c. px src c r)"

text \<open>
  \<open>cv2.flip(src, flipCode)\<close>: 0 flips around the x axis (rows reversed), a positive
  code around the y axis (columns reversed), a negative code around both.
\<close>

definition cv2_flip :: "'a frame \<Rightarrow> int \<Rightarrow> 'a frame" where
  "cv2_flip src flipCode =
     mk_frame (height src) (width src)
       (\<lambda>r c. if flipCode = 0 then px src (height src - 1 - r) c
              else if 0 < flipCode then px src r (width src - 1 - c)
              else px src (height src - 1 - r) (width src - 1 - c))"

text \<open>
  \<open>cv2.rotate(src, rotateCode)\<close>, as the library composes it: 0
  (ROTATE_90_CLOCKWISE) transposes and flips around the y axis, 1 (ROTATE_180) flips
  around both axes, 2 (ROTATE_90_COUNTERCLOCKWISE) transposes and flips around the
  x axis; for any other code the call returns without an error and without having
  filled the destination, which is left empty. The scripts pass 2 only.
\<close>

definition cv2_rotate :: "'a frame \<Rightarrow> int \<Rightarrow> py_error + 'a frame" where
  "cv2_rotate src rotateCode =
     (if rotateCode = 0 then Inr (cv2_flip (cv2_transpose src) 1)
      else if rotateCode = 1 then Inr (cv2_flip src (- 1))
      else if rotateCode = 2 then Inr (cv2_flip (cv2_transpose src) 0)
      else Inr \<lparr>height = 0, width = 0, pixels = []\<rparr>)"

text \<open>
  The basic slice \<open>img[r0:r1, c0:c1]\<close> with non-negative bounds: each bound is clipped
  to the axis length and an inverted range is empty.
\<close>

definition slice2 :: "'a frame \<Rightarrow> nat \<Rightarrow> nat \<Rightarrow> nat \<Rightarrow> nat \<Rightarrow> 'a frame" where
  "slice2 img r0 r1 c0 c1 =
     (let a = min r0 (height img); b = min r1 (height img);
          c = min c0 (width img); d = min c1 (width img)
      in mk_frame (b - a) (d - c) (\<lambda>i j. px img (a + i) (c + j)))"

section \<open>capture_channel.py: rotate_and_split_into_channels\<close>

text \<open>Lines 30 and 31: the resize to (IMAGE_WIDTH, IMAGE_HEIGHT), then the rotation.\<close>

definition resize_and_rotate ::
  "('a frame \<Rightarrow> nat \<Rightarrow> nat \<Rightarrow> nat \<Rightarrow> nat \<Rightarrow> 'a) \<Rightarrow> 'a frame \<Rightarrow> int \<Rightarrow> int \<Rightarrow> py_error + 'a frame" where
  "resize_and_rotate interp frame IMAGE_WIDTH IMAGE_HEIGHT =
     (case cv2_resize interp frame (IMAGE_WIDTH, IMAGE_HEIGHT) of
        Inl e \<Rightarrow> Inl e
      | Inr img \<Rightarrow> cv2_rotate img 2)"

text \<open>Lines 35 to 46: the four slices of the rotated frame.\<close>

definition split_into_channels :: "'a frame \<Rightarrow> 'a frame list" where
  "split_into_channels img =
     (let rotated_height = height img; rotated_width = width img;
          w_half = rotated_width div 2;
          h_half = rotated_height div 2;
          ch1 = slice2 img h_half rotated_height 0 w_half;
          ch2 = slice2 img 0 h_half 0 w_half;
          ch3 = slice2 img h_half rotated_height w_half rotated_width;
          ch4 = slice2 img 0 h_half w_half rotated_width
      in [ch1, ch2, ch3, ch4])"

definition rotate_and_split_into_channels ::
  "('a frame \<Rightarrow> nat \<Rightarrow> nat \<Rightarrow> nat \<Rightarrow> nat \<Rightarrow> 'a) \<Rightarrow> 'a frame \<Rightarrow> int \<Rightarrow> int \<Rightarrow> py_error + 'a frame list" where
  "rotate_and_split_into_channels interp frame IMAGE_WIDTH IMAGE_HEIGHT =
     (case resize_and_rotate interp frame IMAGE_WIDTH IMAGE_HEIGHT of
        Inl e \<Rightarrow> Inl e
      | Inr img \<Rightarrow> Inr (split_into_channels img))"

text \<open>\<open>img.shape[:2]\<close>: (rows, columns).\<close>

definition shape :: "'a frame \<Rightarrow> nat \<times> nat" where
  "shape img = (height img, width img)"

text \<open>
  The slice bounds of lines 41 to 44, in the order of the returned list: for each
  channel the rows \<open>[r0, r1)\<close> and the columns \<open>[c0, c1)\<close> of the rotated frame,
  as (r0, r1, c0, c1).
\<close>

definition channel_bounds :: "nat \<Rightarrow> nat \<Rightarrow> (nat \<times> nat \<times> nat \<times> nat) list" where
  "channel_bounds rotated_height rotated_width =
     (let w_half = rotated_width div 2;
          h_half = rotated_height div 2
      in [(h_half, rotated_height, 0, w_half),
          (0, h_half, 0, w_half),
          (h_half, rotated_height, w_half, rotated_width),
          (0, h_half, w_half, rotated_width)])"

text \<open>Pixel (r, c) lies in the rectangle of rows \<open>[r0, r1)\<close> and columns \<open>[c0, c1)\<close>.\<close>

fun in_bounds :: "nat \<times> nat \<times> nat \<times> nat \<Rightarrow> nat \<Rightarrow> nat \<Rightarrow> bool" where
  "in_bounds (r0, r1, c0, c1) r c = (r0 \<le> r \<and> r < r1 \<and> c0 \<le> c \<and> c < c1)"

section \<open>Text formatting and paths\<close>

text \<open>\<open>str(n)\<close> and the format \<open>{n:04d}\<close> of a Python int; \<open>os.path\<close> on POSIX.\<close>

fun str_nat :: "nat \<Rightarrow> string" where
  "str_nat n =
     (if n < 10 then [''0123456789'' ! n]
      else str_nat (n div 10) @ [''0123456789'' ! (n mod 10)])"

declare str_nat.simps [simp del]

definition py_str :: "int \<Rightarrow> string" where
  "py_str i = (if i < 0 then ''-'' @ str_nat (nat (- i)) else str_nat (nat i))"

definition zero_pad :: "nat \<Rightarrow> string \<Rightarrow> string" where
  "zero_pad k s = replicate (k - length s) (CHR ''0'') @ s"

definition format_04d :: "int \<Rightarrow> string" where
  "format_04d i =
     (if i < 0 then ''-'' @ zero_pad 3 (str_nat (nat (- i))) else zero_pad 4 (str_nat (nat i)))"

text \<open>\<open>os.path.join(a, b)\<close> for a relative \<open>b\<close>.\<close>

definition os_path_join :: "string \<Rightarrow> string \<Rightarrow> string" where
  "os_path_join a b =
     (if a = [] \<or> last a = CHR ''/'' then a @ b else a @ ''/'' @ b)"

text \<open>\<open>os.path.dirname(p)\<close>: the part before the last slash, without trailing slashes
  unless it consists of slashes only.\<close>

definition os_path_dirname :: "string \<Rightarrow> string" where
  "os_path_dirname p =
     (let hd_part = rev (dropWhile (\<lambda>ch. ch \<noteq> CHR ''/'') (rev p))
      in if hd_part \<noteq> [] \<and> \<not> list_all (\<lambda>ch. ch = CHR ''/'') hd_part
         then rev (dropWhile (\<lambda>ch. ch = CHR ''/'') (rev hd_part))
         else hd_part)"

section \<open>Video files and the effects of the scripts\<close>

text \<open>
  What a script sees of a video file through \<open>cv2.VideoCapture\<close>: whether it opens,
  the properties the container reports (the frame count, the width and the height,
  each after \<open>int(...)\<close>), and the frames in decoding order, where \<open>None\<close> is a
  position whose \<open>read()\<close> returns \<open>ret = False\<close>. The reported frame count is
  metadata: it need not be the number of frames that decode. The frame rate is a float
  that is only printed and handed on, and is left out.
\<close>

record 'a video =
  opens :: bool
  prop_frame_count :: int
  prop_frame_width :: int
  prop_frame_height :: int
  stream :: "'a frame option list"

text \<open>
  \<open>cap.set(cv2.CAP_PROP_POS_FRAMES, n)\<close> followed by \<open>cap.read()\<close>: the frame at
  position n, or a failed read at a position outside the stream.
\<close>

definition read_at :: "'a video \<Rightarrow> int \<Rightarrow> 'a frame option" where
  "read_at v n = (if 0 \<le> n \<and> nat n < length (stream v) then stream v ! nat n else None)"

text \<open>
  The calls a script makes on the capture handle, the file system and the preview
  window, in order. Console messages are not recorded.
\<close>

datatype 'a event =
    Open
  | Release
  | Seek int
  | Read
  | MakeDirs string
  | ImWrite string "'a frame"
  | ImShow string "'a frame"
  | WaitKey
  | DestroyAllWindows

text \<open>
  What the scripts see of the machine they run on: whether the file system lets
  \<open>os.makedirs(path, exist_ok=True)\<close> succeed for a path, and whether the library
  finds an image encoder for the extension of a path.
\<close>

record host =
  can_makedirs :: "string \<Rightarrow> bool"
  has_encoder :: "string \<Rightarrow> bool"

text \<open>
  \<open>os.makedirs(path, exist_ok=True)\<close>: the error raised, if any. The empty path raises
  FileNotFoundError; for another path the file system decides (OSError: no permission,
  a file in the way).
\<close>

definition os_makedirs :: "host \<Rightarrow> string \<Rightarrow> py_error option" where
  "os_makedirs h path =
     (if path = [] then Some FileNotFoundError
      else if can_makedirs h path then None
      else Some OSError)"

text \<open>
  \<open>cv2.imwrite(path, img)\<close>: the error raised, if any. The library raises
  \<open>cv2.error\<close> for an empty image and for a path whose extension has no encoder.
\<close>

definition cv2_imwrite :: "host \<Rightarrow> string \<Rightarrow> 'a frame \<Rightarrow> py_error option" where
  "cv2_imwrite h path img =
     (if height img = 0 \<or> width img = 0 \<or> \<not> has_encoder h path then Some CvError
      else None)"

text \<open>
  The common end of \<open>capture_specific_frame\<close> (lines 49 to 64) and of
  \<open>capture_channel_from_frame\<close> (lines 129 to 149): the directory of the output path
  is created when the path has one, the image is written and shown, the handle is
  released and True is returned. \<open>trace\<close> holds the calls made before. A call that
  raises ends the function with its error; the trace keeps the calls that returned.
\<close>

definition save_and_show ::
  "host \<Rightarrow> 'a event list \<Rightarrow> string \<Rightarrow> string \<Rightarrow> 'a frame \<Rightarrow> (py_error + bool) \<times> 'a event list" where
  "save_and_show h trace output_path title img =
     (let output_dir = os_path_dirname output_path
      in case (if output_dir \<noteq> [] then os_makedirs h output_dir else None) of
           Some e \<Rightarrow> (Inl e, trace)
         | None \<Rightarrow>
             let trace = trace @ (if output_dir \<noteq> [] then [MakeDirs output_dir] else [])
             in (case cv2_imwrite h output_path img of
                   Some e \<Rightarrow> (Inl e, trace)
                 | None \<Rightarrow>
                     (Inr True,
                      trace @ [ImWrite output_path img, ImShow title img,
                               WaitKey, DestroyAllWindows, Release])))"

section \<open>frame_capture.py\<close>

text \<open>
  Each script function returns its Python return value, or the error raised, together
  with the calls it made. \<open>capture_specific_frame\<close>, lines 18 to 68.
\<close>

definition capture_specific_frame ::
  "host \<Rightarrow> 'a video \<Rightarrow> int \<Rightarrow> string \<Rightarrow> (py_error + bool) \<times> 'a event list" where
  "capture_specific_frame h v frame_number output_path =
     (if \<not> opens v then (Inr False, [Open])
      else
        let total_frames = prop_frame_count v
        in if frame_number \<ge> total_frames \<or> frame_number < 0
           then (Inr False, [Open, Release])
           else
             (case read_at v frame_number of
                Some frame \<Rightarrow>
                  save_and_show h [Open, Seek frame_number, Read] output_path
                    (''Frame '' @ py_str frame_number) frame
              | None \<Rightarrow> (Inr False, [Open, Seek frame_number, Read, Release])))"

text \<open>
  The loop of \<open>capture_multiple_frames\<close>, lines 91 to 105. The path written ends in
  \<open>.jpg\<close> and the frame is one that was read, so \<open>cv2.imwrite\<close> is a call that
  returns here.
\<close>

fun capture_loop :: "'a video \<Rightarrow> int \<Rightarrow> string \<Rightarrow> int list \<Rightarrow> 'a event list" where
  "capture_loop v total_frames output_dir [] = []"
| "capture_loop v total_frames output_dir (frame_num # rest) =
     (if frame_num \<ge> total_frames \<or> frame_num < 0
      then capture_loop v total_frames output_dir rest
      else
        [Seek frame_num, Read] @
        (case read_at v frame_num of
           Some frame \<Rightarrow>
             [ImWrite (os_path_join output_dir (''frame_'' @ format_04d frame_num @ ''.jpg'')) frame]
         | None \<Rightarrow> []) @
        capture_loop v total_frames output_dir rest)"

text \<open>
  \<open>capture_multiple_frames\<close>, lines 81 to 108; it returns nothing. Its first
  statement is \<open>os.makedirs(output_dir, exist_ok=True)\<close>: when that raises, the video is
  not opened and the loop is not reached.
\<close>

definition capture_multiple_frames ::
  "host \<Rightarrow> 'a video \<Rightarrow> int list \<Rightarrow> string \<Rightarrow> (py_error + unit) \<times> 'a event list" where
  "capture_multiple_frames h v frame_numbers output_dir =
     (case os_makedirs h output_dir of
        Some e \<Rightarrow> (Inl e, [])
      | None \<Rightarrow>
          if \<not> opens v then (Inr (), [MakeDirs output_dir, Open])
          else
            let total_frames = prop_frame_count v
            in (Inr (),
                [MakeDirs output_dir, Open] @
                capture_loop v total_frames output_dir frame_numbers @ [Release]))"


section \<open>capture_channel.py: capture_channel_from_frame\<close>

text \<open>
  Lines 72 to 149. An optional argument is \<open>None\<close> or a value. The result is the
  return value, or the error an inner call raised, with the calls made until then.
\<close>

definition capture_channel_from_frame ::
  "('a frame \<Rightarrow> nat \<Rightarrow> nat \<Rightarrow> nat \<Rightarrow> nat \<Rightarrow> 'a) \<Rightarrow> host \<Rightarrow> 'a video \<Rightarrow> int \<Rightarrow> int \<Rightarrow>
     string option \<Rightarrow> int option \<Rightarrow> int option \<Rightarrow> (py_error + bool) \<times> 'a event list" where
  "capture_channel_from_frame interp h v frame_number channel output_path
     IMAGE_WIDTH IMAGE_HEIGHT =
     (if channel \<notin> set [1, 2, 3, 4] then (Inr False, [])
      else if \<not> opens v then (Inr False, [Open])
      else
        let total_frames = prop_frame_count v;
            original_width = prop_frame_width v;
            original_height = prop_frame_height v;
            IMAGE_WIDTH = (case IMAGE_WIDTH of None \<Rightarrow> original_width | Some w \<Rightarrow> w);
            IMAGE_HEIGHT = (case IMAGE_HEIGHT of None \<Rightarrow> original_height | Some h \<Rightarrow> h)
        in if frame_number \<ge> total_frames \<or> frame_number < 0 then (Inr False, [Open, Release])
           else
             (case read_at v frame_number of
                None \<Rightarrow> (Inr False, [Open, Seek frame_number, Read, Release])
              | Some frame \<Rightarrow>
                  (case rotate_and_split_into_channels interp frame IMAGE_WIDTH IMAGE_HEIGHT of
                     Inl e \<Rightarrow> (Inl e, [Open, Seek frame_number, Read])
                   | Inr channels \<Rightarrow>
                       let selected_channel = channels ! nat (channel - 1);
                           output_path =
                             (case output_path of
                                None \<Rightarrow>
                                  ''src/opencv/output/frame_'' @ format_04d frame_number @
                                  ''_ch'' @ py_str channel @ ''.jpg''
                              | Some p \<Rightarrow> p)
                       in save_and_show h [Open, Seek frame_number, Read] output_path
                            (''Frame '' @ py_str frame_number @ '' - Channel '' @
                             py_str channel) selected_channel)))"

section \<open>add_frame_numbers.py\<close>

text \<open>
  The loop of lines 50 to 99 over the frames still to be read: \<open>cap.read()\<close> takes the
  next one, and returns \<open>ret = False\<close> at a frame that does not decode and at the end of
  the stream. The drawing calls of lines 60 to 89 (text size, background rectangle,
  blending, \<open>putText\<close>) are the parameter \<open>draw text frame\<close>. The loop yields the final
  \<open>frame_count\<close>, or the error raised, with the frames handed to \<open>out.write\<close>.
  Line 98 divides by \<open>total_frames\<close>.
\<close>

fun annotate_loop ::
  "(string \<Rightarrow> 'a frame \<Rightarrow> 'a frame) \<Rightarrow> int \<Rightarrow> 'a frame option list \<Rightarrow> int \<Rightarrow> 'a frame list \<Rightarrow>
     (py_error + int) \<times> 'a frame list" where
  "annotate_loop draw total_frames [] frame_count out = (Inr frame_count, out)"
| "annotate_loop draw total_frames (None # rest) frame_count out = (Inr frame_count, out)"
| "annotate_loop draw total_frames (Some frame # rest) frame_count out =
     (let text = ''Frame: '' @ py_str frame_count;
          out = out @ [draw text frame];
          frame_count = frame_count + 1
      in if frame_count mod 30 = 0 \<and> total_frames = 0 then (Inl ZeroDivisionError, out)
         else annotate_loop draw total_frames rest frame_count out)"

text \<open>
  \<open>add_frame_numbers_to_video\<close>, lines 20 to 107; \<open>out_opens\<close> says whether the
  \<open>cv2.VideoWriter\<close> of line 40 opened.
\<close>

definition add_frame_numbers_to_video ::
  "(string \<Rightarrow> 'a frame \<Rightarrow> 'a frame) \<Rightarrow> 'a video \<Rightarrow> bool \<Rightarrow> (py_error + bool) \<times> 'a frame list" where
  "add_frame_numbers_to_video draw v out_opens =
     (if \<not> opens v then (Inr False, [])
      else
        let total_frames = prop_frame_count v
        in if \<not> out_opens then (Inr False, [])
           else
             (case annotate_loop draw total_frames (stream v) 0 [] of
                (Inl e, out) \<Rightarrow> (Inl e, out)
              | (Inr frame_count, out) \<Rightarrow> (Inr True, out)))"

section \<open>Properties of the frame primitives\<close>

lemma height_mk_frame [simp]: "height (mk_frame h w f) = h"
  by (simp add: mk_frame_def)

lemma width_mk_frame [simp]: "width (mk_frame h w f) = w"
  by (simp add: mk_frame_def)

lemma px_mk_frame [simp]: "r < h \<Longrightarrow> c < w \<Longrightarrow> px (mk_frame h w f) r c = f r c"
  by (simp add: mk_frame_def px_def)

lemma shape_slice2:
  "r0 \<le> r1 \<Longrightarrow> r1 \<le> height img \<Longrightarrow> c0 \<le> c1 \<Longrightarrow> c1 \<le> width img \<Longrightarrow>
   height (slice2 img r0 r1 c0 c1) = r1 - r0 \<and> width (slice2 img r0 r1 c0 c1) = c1 - c0"
  by (simp add: slice2_def Let_def min_def)

lemma px_slice2:
  "r0 \<le> r1 \<Longrightarrow> r1 \<le> height img \<Longrightarrow> c0 \<le> c1 \<Longrightarrow> c1 \<le> width img \<Longrightarrow>
   i < r1 - r0 \<Longrightarrow> j < c1 - c0 \<Longrightarrow>
   px (slice2 img r0 r1 c0 c1) i j = px img (r0 + i) (c0 + j)"
  by (simp add: slice2_def Let_def min_def)

lemma cv2_rotate_2:
  "cv2_rotate img 2 = Inr (cv2_flip (cv2_transpose img) 0)"
  by (simp add: cv2_rotate_def)

lemma shape_rotated:
  "height (cv2_flip (cv2_transpose img) 0) = width img \<and>
   width (cv2_flip (cv2_transpose img) 0) = height img"
  by (simp add: cv2_flip_def cv2_transpose_def)

lemma px_rotated:
  "r < width img \<Longrightarrow> c < height img \<Longrightarrow>
   px (cv2_flip (cv2_transpose img) 0) r c = px img c (width img - 1 - r)"
  by (simp add: cv2_flip_def cv2_transpose_def)

lemma cv2_resize_returns_iff:
  "(\<exists>img. cv2_resize interp frame (W, H) = Inr img) \<longleftrightarrow>
   height frame \<noteq> 0 \<and> width frame \<noteq> 0 \<and> 0 < W \<and> W \<le> 2147483647 \<and> 0 < H \<and> H \<le> 2147483647"
  by (auto simp: cv2_resize_def)

lemma cv2_resize_returned:
  assumes "cv2_resize interp frame (W, H) = Inr img"
  shows "height img = nat H \<and> width img = nat W \<and> 0 < W \<and> 0 < H"
  using assms by (auto simp: cv2_resize_def split: if_splits)

lemma rotate_and_split_on_resize:
  assumes "cv2_resize interp frame (W, H) = Inr img"
  shows "\<exists>rot. resize_and_rotate interp frame W H = Inr rot \<and>
           cv2_rotate img 2 = Inr rot \<and>
           height rot = nat W \<and> width rot = nat H \<and>
           0 < height rot \<and> 0 < width rot \<and>
           rotate_and_split_into_channels interp frame W H = Inr (split_into_channels rot)"
  using assms cv2_resize_returned [OF assms]
  by (simp add: rotate_and_split_into_channels_def resize_and_rotate_def cv2_rotate_2
      shape_rotated)

lemma quadrant_area:
  fixes h w :: nat
  shows "(h - h div 2) * (w div 2) + (h div 2) * (w div 2) +
         (h - h div 2) * (w - w div 2) + (h div 2) * (w - w div 2) = h * w"
proof -
  have "(h - h div 2) * (w div 2) + (h div 2) * (w div 2) = h * (w div 2)"
    by (simp add: add_mult_distrib [symmetric])
  moreover have "(h - h div 2) * (w - w div 2) + (h div 2) * (w - w div 2) = h * (w - w div 2)"
    by (simp add: add_mult_distrib [symmetric])
  moreover have "h * (w div 2) + h * (w - w div 2) = h * w"
    by (simp add: add_mult_distrib2 [symmetric])
  ultimately show ?thesis by simp
qed

lemma floor_area_eq_iff:
  fixes h w :: nat
  assumes "0 < h" "0 < w"
  shows "(w div 2 * 2) * (h div 2 * 2) = w * h \<longleftrightarrow> even w \<and> even h"
proof
  assume eq: "(w div 2 * 2) * (h div 2 * 2) = w * h"
  have lw: "w div 2 * 2 \<le> w" and lh: "h div 2 * 2 \<le> h" by simp_all
  show "even w \<and> even h"
  proof (rule ccontr)
    assume "\<not> (even w \<and> even h)"
    then consider "odd w" | "odd h" by blast
    then show False
    proof cases
      case 1
      then have "w div 2 * 2 < w" by presburger
      then have "(w div 2 * 2) * h < w * h"
        using assms by simp
      moreover have "(w div 2 * 2) * (h div 2 * 2) \<le> (w div 2 * 2) * h"
        using lh by (rule mult_le_mono2)
      ultimately have "(w div 2 * 2) * (h div 2 * 2) < w * h"
        by (rule le_less_trans [rotated])
      with eq show False by simp
    next
      case 2
      then have "h div 2 * 2 < h" by presburger
      then have "w * (h div 2 * 2) < w * h"
        using assms by simp
      moreover have "(w div 2 * 2) * (h div 2 * 2) \<le> w * (h div 2 * 2)"
        using lw by (rule mult_le_mono1)
      ultimately have "(w div 2 * 2) * (h div 2 * 2) < w * h"
        by (rule le_less_trans [rotated])
      with eq show False by simp
    qed
  qed
next
  assume "even w \<and> even h"
  then show "(w div 2 * 2) * (h div 2 * 2) = w * h" by simp
qed

lemma slice2_region:
  assumes "r0 \<le> r1" "r1 \<le> height img" "c0 \<le> c1" "c1 \<le> width img"
  shows "shape (slice2 img r0 r1 c0 c1) = (r1 - r0, c1 - c0) \<and>
         (\<forall>i j. i < r1 - r0 \<longrightarrow> j < c1 - c0 \<longrightarrow>
                px (slice2 img r0 r1 c0 c1) i j = px img (r0 + i) (c0 + j))"
  using assms by (simp add: shape_def shape_slice2 px_slice2)

lemma less_4_cases: "k < (4::nat) \<longleftrightarrow> k = 0 \<or> k = Suc 0 \<or> k = 2 \<or> k = 3"
  by arith

lemma channel_bounds_nth:
  "channel_bounds h w ! 0 = (h div 2, h, 0, w div 2)"
  "channel_bounds h w ! Suc 0 = (0, h div 2, 0, w div 2)"
  "channel_bounds h w ! 2 = (h div 2, h, w div 2, w)"
  "channel_bounds h w ! 3 = (0, h div 2, w div 2, w)"
  by (simp_all add: channel_bounds_def Let_def)

lemma in_exactly_one_channel:
  assumes "r < h" "c < w"
  shows "\<exists>!k. k < 4 \<and> in_bounds (channel_bounds h w ! k) r c"
proof -
  let ?k = "if r < h div 2 then (if c < w div 2 then 1 else 3)
            else (if c < w div 2 then 0 else 2) :: nat"
  have "?k < 4 \<and> in_bounds (channel_bounds h w ! ?k) r c"
    using assms by (simp add: channel_bounds_nth)
  moreover have "k = ?k" if "k < 4 \<and> in_bounds (channel_bounds h w ! k) r c" for k
    using that by (auto simp: less_4_cases channel_bounds_nth)
  ultimately show ?thesis by blast
qed

lemma in_channel_inside:
  assumes "k < 4" "in_bounds (channel_bounds h w ! k) r c"
  shows "r < h \<and> c < w"
  using assms by (auto simp: less_4_cases channel_bounds_nth)

lemma split_channel_region:
  assumes "k < 4"
  shows "case channel_bounds (height rot) (width rot) ! k of
           (r0, r1, c0, c1) \<Rightarrow>
             r0 \<le> r1 \<and> r1 \<le> height rot \<and> c0 \<le> c1 \<and> c1 \<le> width rot \<and>
             shape (split_into_channels rot ! k) = (r1 - r0, c1 - c0) \<and>
             (\<forall>i j. i < r1 - r0 \<longrightarrow> j < c1 - c0 \<longrightarrow>
                    px (split_into_channels rot ! k) i j = px rot (r0 + i) (c0 + j))"
proof -
  let ?hh = "height rot div 2" and ?wh = "width rot div 2"
  have split: "split_into_channels rot =
      [slice2 rot ?hh (height rot) 0 ?wh, slice2 rot 0 ?hh 0 ?wh,
       slice2 rot ?hh (height rot) ?wh (width rot), slice2 rot 0 ?hh ?wh (width rot)]"
    by (simp add: split_into_channels_def Let_def)
  from assms consider "k = 0" | "k = Suc 0" | "k = 2" | "k = 3"
    by (auto simp: less_4_cases)
  then show ?thesis
  proof cases
    case 1
    then show ?thesis
      using slice2_region [of ?hh "height rot" rot 0 ?wh]
      by (simp add: channel_bounds_nth split)
  next
    case 2
    then show ?thesis
      using slice2_region [of 0 ?hh rot 0 ?wh]
      by (simp add: channel_bounds_nth split)
  next
    case 3
    then show ?thesis
      using slice2_region [of ?hh "height rot" rot ?wh "width rot"]
      by (simp add: channel_bounds_nth split)
  next
    case 4
    then show ?thesis
      using slice2_region [of 0 ?hh rot ?wh "width rot"]
      by (simp add: channel_bounds_nth split)
  qed
qed

text \<open>
  \<open>rotate_and_split_into_channels\<close> returns exactly when \<open>cv2.resize\<close> accepts its
  arguments: a frame that is not empty and a target size whose sides are positive and
  fit a C int. Otherwise the error of the resize is raised.
\<close>

lemma rotate_and_split_returns_iff:
  "(\<exists>chs. rotate_and_split_into_channels interp frame W H = Inr chs) \<longleftrightarrow>
   (\<exists>img. cv2_resize interp frame (W, H) = Inr img)"
  by (auto simp: rotate_and_split_into_channels_def resize_and_rotate_def cv2_rotate_def
      split: sum.splits)

lemma rotate_and_split_raises:
  "height frame = 0 \<or> width frame = 0 \<or> W \<le> 0 \<or> H \<le> 0 \<or> 2147483647 < W \<or> 2147483647 < H \<Longrightarrow>
   rotate_and_split_into_channels interp frame W H = Inl CvError"
  by (auto simp: rotate_and_split_into_channels_def resize_and_rotate_def cv2_resize_def)

section \<open>The rotation step\<close>

text \<open>
  Claim C4. The rotation step of \<open>rotate_and_split_into_channels\<close> turns the resized
  frame, of width W and height H, by 90 degrees counter-clockwise (270 degrees
  clockwise): the rotated frame has width H and height W, and its pixel (r, c) is pixel
  (c, W - 1 - r) of the resized frame.
\<close>

theorem rotation_step:
  assumes "cv2_resize interp frame (IMAGE_WIDTH, IMAGE_HEIGHT) = Inr img"
  shows "\<exists>rot. resize_and_rotate interp frame IMAGE_WIDTH IMAGE_HEIGHT = Inr rot \<and>
           cv2_rotate img 2 = Inr rot \<and>
           width img = nat IMAGE_WIDTH \<and> height img = nat IMAGE_HEIGHT \<and>
           width rot = height img \<and> height rot = width img \<and>
           (\<forall>r c. r < height rot \<longrightarrow> c < width rot \<longrightarrow>
                  px rot r c = px img c (width img - 1 - r))"
proof -
  let ?rot = "cv2_flip (cv2_transpose img) 0"
  have "resize_and_rotate interp frame IMAGE_WIDTH IMAGE_HEIGHT = Inr ?rot"
    using assms by (simp add: resize_and_rotate_def cv2_rotate_2)
  moreover have "width img = nat IMAGE_WIDTH \<and> height img = nat IMAGE_HEIGHT"
    using assms by (auto simp: cv2_resize_def split: if_splits)
  ultimately show ?thesis
    by (simp add: cv2_rotate_2 shape_rotated px_rotated)
qed

theorem rotation_step_witness:
  "cv2_resize (\<lambda>_ _ _ r c. 10 * r + c) \<lparr>height = 1, width = 1, pixels = [[0::nat]]\<rparr> (3, 2) =
     Inr \<lparr>height = 2, width = 3, pixels = [[0, 1, 2], [10, 11, 12]]\<rparr> \<and>
   (\<exists>rot. resize_and_rotate (\<lambda>_ _ _ r c. 10 * r + c)
             \<lparr>height = 1, width = 1, pixels = [[0::nat]]\<rparr> 3 2 = Inr rot \<and>
          width rot = 2 \<and> height rot = 3 \<and> px rot 0 1 = 12 \<and> px rot 2 0 = 0)"
proof -
  let ?I = "\<lambda>(_::nat frame) (_::nat) (_::nat) r c. 10 * r + (c::nat)"
  let ?F = "\<lparr>height = 1, width = 1, pixels = [[0::nat]]\<rparr>"
  let ?img = "\<lparr>height = 2, width = 3, pixels = [[0, 1, 2], [10, 11, 12::nat]]\<rparr>"
  have h: "cv2_resize ?I ?F (3, 2) = Inr ?img"
    by (simp add: cv2_resize_def mk_frame_def upt_conv_Cons)
  from rotation_step [OF h] obtain rot where
    rot: "resize_and_rotate ?I ?F 3 2 = Inr rot" "width rot = height ?img" "height rot = width ?img"
      "\<forall>r c. r < height rot \<longrightarrow> c < width rot \<longrightarrow> px rot r c = px ?img c (width ?img - 1 - r)"
    by blast
  have "px rot 0 1 = px ?img 1 2" "px rot 2 0 = px ?img 0 0"
    using rot(2,3,4) by simp_all
  then have "px rot 0 1 = 12" "px rot 2 0 = 0"
    by (simp_all add: px_def)
  with rot(1,2,3) h show ?thesis by auto
qed

section \<open>The sizes of the four channels\<close>

text \<open>
  Claim C1, as amended. Whenever the resize step returns (the library raises for an
  empty frame and for a target side that is not positive or does not fit a C int), the
  function returns four sub-frames. Channel 2 has floor(H_rot / 2) rows and
  floor(W_rot / 2) columns, and all four have when both rotated dimensions are even.
  No row or column of the rotated frame is left out: the total pixel area of the four
  is W_rot * H_rot for every size, and it equals (W_rot div 2 * 2) * (H_rot div 2 * 2)
  exactly when both rotated dimensions are even.
\<close>

theorem quadrant_sizes:
  assumes "cv2_resize interp frame (IMAGE_WIDTH, IMAGE_HEIGHT) = Inr img"
  shows "\<exists>rot chs.
           resize_and_rotate interp frame IMAGE_WIDTH IMAGE_HEIGHT = Inr rot \<and>
           height rot = nat IMAGE_WIDTH \<and> width rot = nat IMAGE_HEIGHT \<and>
           rotate_and_split_into_channels interp frame IMAGE_WIDTH IMAGE_HEIGHT = Inr chs \<and>
           length chs = 4 \<and>
           shape (chs ! 1) = (height rot div 2, width rot div 2) \<and>
           (even (height rot) \<and> even (width rot) \<longrightarrow>
              (\<forall>ch \<in> set chs. shape ch = (height rot div 2, width rot div 2))) \<and>
           (\<Sum>ch\<leftarrow>chs. height ch * width ch) = width rot * height rot \<and>
           ((width rot div 2 * 2) * (height rot div 2 * 2) = width rot * height rot
              \<longleftrightarrow> even (width rot) \<and> even (height rot))"
proof -
  obtain rot where rot: "resize_and_rotate interp frame IMAGE_WIDTH IMAGE_HEIGHT = Inr rot"
      "height rot = nat IMAGE_WIDTH" "width rot = nat IMAGE_HEIGHT"
      "rotate_and_split_into_channels interp frame IMAGE_WIDTH IMAGE_HEIGHT =
         Inr (split_into_channels rot)"
    and pos: "0 < height rot" "0 < width rot"
    using rotate_and_split_on_resize [OF assms] by blast
  have len: "length (split_into_channels rot) = 4"
    by (simp add: split_into_channels_def Let_def)
  have ch2: "shape (split_into_channels rot ! 1) = (height rot div 2, width rot div 2)"
    by (simp add: split_into_channels_def Let_def shape_def shape_slice2)
  have ev: "even (height rot) \<and> even (width rot) \<longrightarrow>
      (\<forall>ch \<in> set (split_into_channels rot). shape ch = (height rot div 2, width rot div 2))"
    by (auto simp: split_into_channels_def Let_def shape_def shape_slice2 elim!: evenE)
  have area: "(\<Sum>ch\<leftarrow>split_into_channels rot. height ch * width ch) = width rot * height rot"
    using quadrant_area [of "height rot" "width rot"]
    by (simp add: split_into_channels_def Let_def shape_slice2 mult.commute)
  show ?thesis
    using rot len ch2 ev area floor_area_eq_iff [OF pos] by blast
qed

theorem quadrant_sizes_witness:
  "cv2_resize (\<lambda>_ _ _ r c. 10 * r + c) \<lparr>height = 1, width = 1, pixels = [[0::nat]]\<rparr> (4, 2) =
     Inr \<lparr>height = 2, width = 4, pixels = [[0, 1, 2, 3], [10, 11, 12, 13]]\<rparr> \<and>
   (\<exists>rot chs.
      resize_and_rotate (\<lambda>_ _ _ r c. 10 * r + c)
        \<lparr>height = 1, width = 1, pixels = [[0::nat]]\<rparr> 4 2 = Inr rot \<and>
      rotate_and_split_into_channels (\<lambda>_ _ _ r c. 10 * r + c)
        \<lparr>height = 1, width = 1, pixels = [[0::nat]]\<rparr> 4 2 = Inr chs \<and>
      height rot = 4 \<and> width rot = 2 \<and> even (height rot) \<and> even (width rot) \<and>
      length chs = 4 \<and> list_all (\<lambda>ch. shape ch = (2, 1)) chs \<and>
      (\<Sum>ch\<leftarrow>chs. height ch * width ch) = 8)"
proof -
  let ?I = "\<lambda>(_::nat frame) (_::nat) (_::nat) r c. 10 * r + (c::nat)"
  let ?F = "\<lparr>height = 1, width = 1, pixels = [[0::nat]]\<rparr>"
  let ?img = "\<lparr>height = 2, width = 4, pixels = [[0, 1, 2, 3], [10, 11, 12, 13::nat]]\<rparr>"
  have a: "cv2_resize ?I ?F (4, 2) = Inr ?img"
    by (simp add: cv2_resize_def mk_frame_def upt_conv_Cons)
  from quadrant_sizes [OF a] obtain rot :: "nat frame" and chs :: "nat frame list" where
    r: "height rot = nat 4" "width rot = nat 2"
      "resize_and_rotate ?I ?F 4 2 = Inr rot"
      "rotate_and_split_into_channels ?I ?F 4 2 = Inr chs" "length chs = 4"
      "even (height rot) \<and> even (width rot) \<longrightarrow>
         (\<forall>ch \<in> set chs. shape ch = (height rot div 2, width rot div 2))"
      "(\<Sum>ch\<leftarrow>chs. height ch * width ch) = width rot * height rot"
    by blast
  have e: "even (height rot)" "even (width rot)" using r(1,2) by simp_all
  with r(6) have "\<forall>ch \<in> set chs. shape ch = (height rot div 2, width rot div 2)" by blast
  then have "list_all (\<lambda>ch. shape ch = (2, 1)) chs"
    using r(1,2) by (simp add: list_all_iff)
  moreover have "(\<Sum>ch\<leftarrow>chs. height ch * width ch) = 8"
    using r(1,2,7) by simp
  ultimately show ?thesis using a r(1,2,3,4,5) e by auto
qed

theorem quadrant_sizes_counterexample:
  "map_sum id (map shape)
     (rotate_and_split_into_channels (\<lambda>_ _ _ r c. 10 * r + c)
        \<lparr>height = 1, width = 1, pixels = [[0::nat]]\<rparr> 3 3) =
     Inr [(2, 1), (1, 1), (2, 2), (1, 2)] \<and>
   map_sum id (map shape)
     (rotate_and_split_into_channels (\<lambda>_ _ _ r c. 10 * r + c)
        \<lparr>height = 1, width = 1, pixels = [[0::nat]]\<rparr> 3 3) \<noteq>
     Inr [(3 div 2, 3 div 2), (3 div 2, 3 div 2), (3 div 2, 3 div 2), (3 div 2, 3 div 2)]"
  by (simp add: rotate_and_split_into_channels_def resize_and_rotate_def cv2_resize_def
      cv2_rotate_def cv2_flip_def cv2_transpose_def split_into_channels_def slice2_def
      shape_def Let_def)

text \<open>
  Claim C10, as amended. The frame is always resized to (IMAGE_WIDTH, IMAGE_HEIGHT)
  first; whenever that resize returns (the library raises for an empty frame and for a
  target side that is not positive or does not fit a C int), the function returns and
  the sizes of the channels depend on these two arguments only; a rotated dimension that
  is odd keeps its extra line: channels 1 and 3 have ceil(H_rot / 2) rows and channels 2
  and 4 floor(H_rot / 2), channels 3 and 4 have ceil(W_rot / 2) columns and channels 1
  and 2 floor(W_rot / 2), where H_rot = IMAGE_WIDTH and W_rot = IMAGE_HEIGHT.
\<close>

theorem split_keeps_odd_line:
  assumes "cv2_resize interp frame (IMAGE_WIDTH, IMAGE_HEIGHT) = Inr img"
  shows "\<exists>rot ch1 ch2 ch3 ch4.
           resize_and_rotate interp frame IMAGE_WIDTH IMAGE_HEIGHT = Inr rot \<and>
           height rot = nat IMAGE_WIDTH \<and> width rot = nat IMAGE_HEIGHT \<and>
           rotate_and_split_into_channels interp frame IMAGE_WIDTH IMAGE_HEIGHT =
             Inr [ch1, ch2, ch3, ch4] \<and>
           shape ch1 = ((nat IMAGE_WIDTH + 1) div 2, nat IMAGE_HEIGHT div 2) \<and>
           shape ch2 = (nat IMAGE_WIDTH div 2, nat IMAGE_HEIGHT div 2) \<and>
           shape ch3 = ((nat IMAGE_WIDTH + 1) div 2, (nat IMAGE_HEIGHT + 1) div 2) \<and>
           shape ch4 = (nat IMAGE_WIDTH div 2, (nat IMAGE_HEIGHT + 1) div 2)"
proof -
  obtain rot where rot: "resize_and_rotate interp frame IMAGE_WIDTH IMAGE_HEIGHT = Inr rot"
      "height rot = nat IMAGE_WIDTH" "width rot = nat IMAGE_HEIGHT"
      "rotate_and_split_into_channels interp frame IMAGE_WIDTH IMAGE_HEIGHT =
         Inr (split_into_channels rot)"
    using rotate_and_split_on_resize [OF assms] by blast
  have ceil: "n - n div 2 = (n + 1) div 2" for n :: nat by presburger
  have "split_into_channels rot =
      [slice2 rot (height rot div 2) (height rot) 0 (width rot div 2),
       slice2 rot 0 (height rot div 2) 0 (width rot div 2),
       slice2 rot (height rot div 2) (height rot) (width rot div 2) (width rot),
       slice2 rot 0 (height rot div 2) (width rot div 2) (width rot)]"
    by (simp add: split_into_channels_def Let_def)
  moreover have "shape (slice2 rot (height rot div 2) (height rot) 0 (width rot div 2)) =
      ((nat IMAGE_WIDTH + 1) div 2, nat IMAGE_HEIGHT div 2)"
    using rot(2,3) by (simp add: shape_def shape_slice2 ceil)
  moreover have "shape (slice2 rot 0 (height rot div 2) 0 (width rot div 2)) =
      (nat IMAGE_WIDTH div 2, nat IMAGE_HEIGHT div 2)"
    using rot(2,3) by (simp add: shape_def shape_slice2)
  moreover have "shape (slice2 rot (height rot div 2) (height rot) (width rot div 2) (width rot)) =
      ((nat IMAGE_WIDTH + 1) div 2, (nat IMAGE_HEIGHT + 1) div 2)"
    using rot(2,3) by (simp add: shape_def shape_slice2 ceil)
  moreover have "shape (slice2 rot 0 (height rot div 2) (width rot div 2) (width rot)) =
      (nat IMAGE_WIDTH div 2, (nat IMAGE_HEIGHT + 1) div 2)"
    using rot(2,3) by (simp add: shape_def shape_slice2 ceil)
  ultimately show ?thesis using rot by (metis (no_types))
qed

theorem split_keeps_odd_line_witness:
  "cv2_resize (\<lambda>_ _ _ r c. 10 * r + c)
     \<lparr>height = 7, width = 9, pixels = replicate 7 (replicate 9 (0::nat))\<rparr> (5, 3) =
     Inr \<lparr>height = 3, width = 5,
          pixels = [[0, 1, 2, 3, 4], [10, 11, 12, 13, 14], [20, 21, 22, 23, 24]]\<rparr> \<and>
   (\<exists>ch1 ch2 ch3 ch4.
      rotate_and_split_into_channels (\<lambda>_ _ _ r c. 10 * r + c)
        \<lparr>height = 7, width = 9, pixels = replicate 7 (replicate 9 (0::nat))\<rparr> 5 3 =
        Inr [ch1, ch2, ch3, ch4] \<and>
      shape ch1 = (3, 1) \<and> shape ch2 = (2, 1) \<and> shape ch3 = (3, 2) \<and> shape ch4 = (2, 2))"
proof -
  let ?I = "\<lambda>(_::nat frame) (_::nat) (_::nat) r c. 10 * r + (c::nat)"
  let ?F = "\<lparr>height = 7, width = 9, pixels = replicate 7 (replicate 9 (0::nat))\<rparr>"
  let ?img = "\<lparr>height = 3, width = 5,
      pixels = [[0, 1, 2, 3, 4], [10, 11, 12, 13, 14], [20, 21, 22, 23, 24::nat]]\<rparr>"
  have a: "cv2_resize ?I ?F (5, 3) = Inr ?img"
    by (simp add: cv2_resize_def mk_frame_def upt_conv_Cons)
  from split_keeps_odd_line [OF a] obtain ch1 ch2 ch3 ch4 :: "nat frame" where
    r: "rotate_and_split_into_channels ?I ?F 5 3 = Inr [ch1, ch2, ch3, ch4]"
      "shape ch1 = ((nat 5 + 1) div 2, nat 3 div 2)"
      "shape ch2 = (nat 5 div 2, nat 3 div 2)"
      "shape ch3 = ((nat 5 + 1) div 2, (nat 3 + 1) div 2)"
      "shape ch4 = (nat 5 div 2, (nat 3 + 1) div 2)"
    by blast
  have "shape ch1 = (3, 1)" "shape ch2 = (2, 1)" "shape ch3 = (3, 2)" "shape ch4 = (2, 2)"
    using r(2,3,4,5) by simp_all
  with a r(1) show ?thesis by blast
qed

text \<open>
  The claim as stated, for every input, fails where the resize raises: with the target
  width 0 nothing is returned.
\<close>

theorem split_keeps_odd_line_counterexample:
  "rotate_and_split_into_channels (\<lambda>_ _ _ r c. 10 * r + c)
     \<lparr>height = 1, width = 1, pixels = [[0::nat]]\<rparr> 0 3 = Inl CvError"
  by (simp add: rotate_and_split_into_channels_def resize_and_rotate_def cv2_resize_def)

section \<open>The order and the regions of the four channels\<close>

text \<open>
  Claim C3, as amended. Whenever the resize step returns (the library raises for an
  empty frame and for a target side that is not positive or does not fit a C int), the
  function returns exactly four sub-frames, in the order ch1, ch2, ch3, ch4, whatever
  the size: ch1 is rows [half-height, H_rot) and columns [0, half-width) of the rotated
  frame (bottom left), ch2 rows [0, half-height) and columns [0, half-width) (top
  left), ch3 rows [half-height, H_rot) and columns [half-width, W_rot) (bottom right),
  ch4 rows [0, half-height) and columns [half-width, W_rot) (top right).
\<close>

theorem channel_order:
  assumes "cv2_resize interp frame (IMAGE_WIDTH, IMAGE_HEIGHT) = Inr img"
  shows "\<exists>rot ch1 ch2 ch3 ch4.
           resize_and_rotate interp frame IMAGE_WIDTH IMAGE_HEIGHT = Inr rot \<and>
           height rot = nat IMAGE_WIDTH \<and> width rot = nat IMAGE_HEIGHT \<and>
           rotate_and_split_into_channels interp frame IMAGE_WIDTH IMAGE_HEIGHT =
             Inr [ch1, ch2, ch3, ch4] \<and>
           (let half_height = height rot div 2; half_width = width rot div 2
            in shape ch1 = (height rot - half_height, half_width) \<and>
               (\<forall>i j. i < height rot - half_height \<longrightarrow> j < half_width \<longrightarrow>
                      px ch1 i j = px rot (half_height + i) j) \<and>
               shape ch2 = (half_height, half_width) \<and>
               (\<forall>i j. i < half_height \<longrightarrow> j < half_width \<longrightarrow> px ch2 i j = px rot i j) \<and>
               shape ch3 = (height rot - half_height, width rot - half_width) \<and>
               (\<forall>i j. i < height rot - half_height \<longrightarrow> j < width rot - half_width \<longrightarrow>
                      px ch3 i j = px rot (half_height + i) (half_width + j)) \<and>
               shape ch4 = (half_height, width rot - half_width) \<and>
               (\<forall>i j. i < half_height \<longrightarrow> j < width rot - half_width \<longrightarrow>
                      px ch4 i j = px rot i (half_width + j)))"
proof -
  obtain rot where rot: "resize_and_rotate interp frame IMAGE_WIDTH IMAGE_HEIGHT = Inr rot"
      "rotate_and_split_into_channels interp frame IMAGE_WIDTH IMAGE_HEIGHT =
         Inr (split_into_channels rot)"
      and dims: "height rot = nat IMAGE_WIDTH" "width rot = nat IMAGE_HEIGHT"
    using rotate_and_split_on_resize [OF assms] by blast
  let ?hh = "height rot div 2" and ?wh = "width rot div 2"
  let ?ch1 = "slice2 rot ?hh (height rot) 0 ?wh"
  let ?ch2 = "slice2 rot 0 ?hh 0 ?wh"
  let ?ch3 = "slice2 rot ?hh (height rot) ?wh (width rot)"
  let ?ch4 = "slice2 rot 0 ?hh ?wh (width rot)"
  have split: "split_into_channels rot = [?ch1, ?ch2, ?ch3, ?ch4]"
    by (simp add: split_into_channels_def Let_def)
  have r1: "shape ?ch1 = (height rot - ?hh, ?wh) \<and>
      (\<forall>i j. i < height rot - ?hh \<longrightarrow> j < ?wh \<longrightarrow> px ?ch1 i j = px rot (?hh + i) j)"
    using slice2_region [of ?hh "height rot" rot 0 ?wh] by simp
  have r2: "shape ?ch2 = (?hh, ?wh) \<and>
      (\<forall>i j. i < ?hh \<longrightarrow> j < ?wh \<longrightarrow> px ?ch2 i j = px rot i j)"
    using slice2_region [of 0 ?hh rot 0 ?wh] by simp
  have r3: "shape ?ch3 = (height rot - ?hh, width rot - ?wh) \<and>
      (\<forall>i j. i < height rot - ?hh \<longrightarrow> j < width rot - ?wh \<longrightarrow>
             px ?ch3 i j = px rot (?hh + i) (?wh + j))"
    using slice2_region [of ?hh "height rot" rot ?wh "width rot"] by simp
  have r4: "shape ?ch4 = (?hh, width rot - ?wh) \<and>
      (\<forall>i j. i < ?hh \<longrightarrow> j < width rot - ?wh \<longrightarrow> px ?ch4 i j = px rot i (?wh + j))"
    using slice2_region [of 0 ?hh rot ?wh "width rot"] by simp
  show ?thesis
    unfolding Let_def using rot(1) dims rot(2) [unfolded split] r1 r2 r3 r4 by blast
qed

theorem channel_order_witness:
  "cv2_resize (\<lambda>_ _ _ r c. 10 * r + c) \<lparr>height = 1, width = 1, pixels = [[0::nat]]\<rparr> (3, 3) =
     Inr \<lparr>height = 3, width = 3, pixels = [[0, 1, 2], [10, 11, 12], [20, 21, 22]]\<rparr> \<and>
   (\<exists>rot ch1 ch2 ch3 ch4.
      resize_and_rotate (\<lambda>_ _ _ r c. 10 * r + c)
        \<lparr>height = 1, width = 1, pixels = [[0::nat]]\<rparr> 3 3 = Inr rot \<and>
      rotate_and_split_into_channels (\<lambda>_ _ _ r c. 10 * r + c)
        \<lparr>height = 1, width = 1, pixels = [[0::nat]]\<rparr> 3 3 = Inr [ch1, ch2, ch3, ch4] \<and>
      shape ch1 = (2, 1) \<and> px ch1 1 0 = px rot 2 0 \<and>
      shape ch2 = (1, 1) \<and> px ch2 0 0 = px rot 0 0 \<and>
      shape ch3 = (2, 2) \<and> px ch3 1 1 = px rot 2 2 \<and>
      shape ch4 = (1, 2) \<and> px ch4 0 1 = px rot 0 2)"
proof -
  let ?I = "\<lambda>(_::nat frame) (_::nat) (_::nat) r c. 10 * r + (c::nat)"
  let ?F = "\<lparr>height = 1, width = 1, pixels = [[0::nat]]\<rparr>"
  let ?img = "\<lparr>height = 3, width = 3, pixels = [[0, 1, 2], [10, 11, 12], [20, 21, 22::nat]]\<rparr>"
  have a: "cv2_resize ?I ?F (3, 3) = Inr ?img"
    by (simp add: cv2_resize_def mk_frame_def upt_conv_Cons)
  from channel_order [OF a, unfolded Let_def]
  obtain rot ch1 ch2 ch3 ch4 :: "nat frame" where
    r: "resize_and_rotate ?I ?F 3 3 = Inr rot"
      "rotate_and_split_into_channels ?I ?F 3 3 = Inr [ch1, ch2, ch3, ch4]"
    and d: "height rot = nat 3" "width rot = nat 3"
    and s: "shape ch1 = (height rot - height rot div 2, width rot div 2)"
      "shape ch2 = (height rot div 2, width rot div 2)"
      "shape ch3 = (height rot - height rot div 2, width rot - width rot div 2)"
      "shape ch4 = (height rot div 2, width rot - width rot div 2)"
    and p1: "\<forall>i j. i < height rot - height rot div 2 \<longrightarrow> j < width rot div 2 \<longrightarrow>
               px ch1 i j = px rot (height rot div 2 + i) j"
    and p2: "\<forall>i j. i < height rot div 2 \<longrightarrow> j < width rot div 2 \<longrightarrow> px ch2 i j = px rot i j"
    and p3: "\<forall>i j. i < height rot - height rot div 2 \<longrightarrow> j < width rot - width rot div 2 \<longrightarrow>
               px ch3 i j = px rot (height rot div 2 + i) (width rot div 2 + j)"
    and p4: "\<forall>i j. i < height rot div 2 \<longrightarrow> j < width rot - width rot div 2 \<longrightarrow>
               px ch4 i j = px rot i (width rot div 2 + j)"
    by blast
  have "shape ch1 = (2, 1)" "shape ch2 = (1, 1)" "shape ch3 = (2, 2)" "shape ch4 = (1, 2)"
    using s d by simp_all
  moreover have "px ch1 1 0 = px rot 2 0"
  proof -
    have "px ch1 1 0 = px rot (Suc (Suc 0)) 0"
      using p1 [rule_format, of 1 0] d by simp
    then show ?thesis by (simp add: numeral_2_eq_2)
  qed
  moreover have "px ch2 0 0 = px rot 0 0"
    using p2 [rule_format, of 0 0] d by simp
  moreover have "px ch3 1 1 = px rot 2 2"
  proof -
    have "px ch3 1 1 = px rot (Suc (Suc 0)) (Suc (Suc 0))"
      using p3 [rule_format, of 1 1] d by simp
    then show ?thesis by (simp add: numeral_2_eq_2)
  qed
  moreover have "px ch4 0 1 = px rot 0 2"
  proof -
    have "px ch4 0 1 = px rot 0 (Suc (Suc 0))"
      using p4 [rule_format, of 0 1] d by simp
    then show ?thesis by (simp add: numeral_2_eq_2)
  qed
  ultimately show ?thesis using a r by blast
qed

text \<open>
  The claim as stated, for every input frame, fails where the resize raises: for an
  empty frame nothing is returned.
\<close>

theorem channel_order_counterexample:
  "rotate_and_split_into_channels (\<lambda>_ _ _ r c. 10 * r + c)
     \<lparr>height = 0, width = 0, pixels = ([]::nat list list)\<rparr> 3 3 = Inl CvError"
  by (simp add: rotate_and_split_into_channels_def resize_and_rotate_def cv2_resize_def)

text \<open>
  Claim C2, as amended. Whenever the resize step returns (the library raises for an
  empty frame and for a target side that is not positive or does not fit a C int), each
  of the four returned channels is one rectangle of the rotated frame, a contiguous range
  of rows and of columns inside it: it has the rectangle's shape and holds the rectangle's
  pixels. Every pixel (r, c) of the rotated frame, r < H_rot and c < W_rot, lies in
  exactly one of the four rectangles: they are pairwise disjoint and cover the rotated
  frame.
\<close>

theorem quadrants_partition:
  assumes "cv2_resize interp frame (IMAGE_WIDTH, IMAGE_HEIGHT) = Inr img"
  shows "\<exists>rot chs.
           resize_and_rotate interp frame IMAGE_WIDTH IMAGE_HEIGHT = Inr rot \<and>
           height rot = nat IMAGE_WIDTH \<and> width rot = nat IMAGE_HEIGHT \<and>
           rotate_and_split_into_channels interp frame IMAGE_WIDTH IMAGE_HEIGHT = Inr chs \<and>
           length chs = 4 \<and>
           (\<forall>k. k < 4 \<longrightarrow>
              (case channel_bounds (height rot) (width rot) ! k of
                 (r0, r1, c0, c1) \<Rightarrow>
                   r0 \<le> r1 \<and> r1 \<le> height rot \<and> c0 \<le> c1 \<and> c1 \<le> width rot \<and>
                   shape (chs ! k) = (r1 - r0, c1 - c0) \<and>
                   (\<forall>i j. i < r1 - r0 \<longrightarrow> j < c1 - c0 \<longrightarrow>
                          px (chs ! k) i j = px rot (r0 + i) (c0 + j)))) \<and>
           (\<forall>r c. r < height rot \<longrightarrow> c < width rot \<longrightarrow>
                  (\<exists>!k. k < 4 \<and> in_bounds (channel_bounds (height rot) (width rot) ! k) r c))"
proof -
  obtain rot where rot: "resize_and_rotate interp frame IMAGE_WIDTH IMAGE_HEIGHT = Inr rot"
      "height rot = nat IMAGE_WIDTH" "width rot = nat IMAGE_HEIGHT"
      "rotate_and_split_into_channels interp frame IMAGE_WIDTH IMAGE_HEIGHT =
         Inr (split_into_channels rot)"
    using rotate_and_split_on_resize [OF assms] by blast
  have len: "length (split_into_channels rot) = 4"
    by (simp add: split_into_channels_def Let_def)
  have region: "\<forall>k. k < 4 \<longrightarrow>
      (case channel_bounds (height rot) (width rot) ! k of
         (r0, r1, c0, c1) \<Rightarrow>
           r0 \<le> r1 \<and> r1 \<le> height rot \<and> c0 \<le> c1 \<and> c1 \<le> width rot \<and>
           shape (split_into_channels rot ! k) = (r1 - r0, c1 - c0) \<and>
           (\<forall>i j. i < r1 - r0 \<longrightarrow> j < c1 - c0 \<longrightarrow>
                  px (split_into_channels rot ! k) i j = px rot (r0 + i) (c0 + j)))"
    by (intro allI impI) (rule split_channel_region)
  have one: "\<forall>r c. r < height rot \<longrightarrow> c < width rot \<longrightarrow>
      (\<exists>!k. k < 4 \<and> in_bounds (channel_bounds (height rot) (width rot) ! k) r c)"
    using in_exactly_one_channel by blast
  show ?thesis
    using rot len region one by blast
qed

theorem quadrants_partition_witness:
  "cv2_resize (\<lambda>_ _ _ r c. 10 * r + c) \<lparr>height = 1, width = 1, pixels = [[0::nat]]\<rparr> (3, 3) =
     Inr \<lparr>height = 3, width = 3, pixels = [[0, 1, 2], [10, 11, 12], [20, 21, 22]]\<rparr> \<and>
   (\<exists>rot chs.
      resize_and_rotate (\<lambda>_ _ _ r c. 10 * r + c)
        \<lparr>height = 1, width = 1, pixels = [[0::nat]]\<rparr> 3 3 = Inr rot \<and>
      rotate_and_split_into_channels (\<lambda>_ _ _ r c. 10 * r + c)
        \<lparr>height = 1, width = 1, pixels = [[0::nat]]\<rparr> 3 3 = Inr chs \<and>
      length chs = 4 \<and> 2 < height rot \<and> 2 < width rot \<and>
      (\<exists>!k. k < 4 \<and> in_bounds (channel_bounds (height rot) (width rot) ! k) 2 2) \<and>
      in_bounds (channel_bounds (height rot) (width rot) ! 2) 2 2 \<and>
      shape (chs ! 2) = (2, 2) \<and> px (chs ! 2) 1 1 = px rot 2 2)"
proof -
  let ?I = "\<lambda>(_::nat frame) (_::nat) (_::nat) r c. 10 * r + (c::nat)"
  let ?F = "\<lparr>height = 1, width = 1, pixels = [[0::nat]]\<rparr>"
  let ?img = "\<lparr>height = 3, width = 3, pixels = [[0, 1, 2], [10, 11, 12], [20, 21, 22::nat]]\<rparr>"
  have a: "cv2_resize ?I ?F (3, 3) = Inr ?img"
    by (simp add: cv2_resize_def mk_frame_def upt_conv_Cons)
  from quadrants_partition [OF a]
  obtain rot :: "nat frame" and chs :: "nat frame list" where
    r: "resize_and_rotate ?I ?F 3 3 = Inr rot"
      "rotate_and_split_into_channels ?I ?F 3 3 = Inr chs" "length chs = 4"
    and d: "height rot = nat 3" "width rot = nat 3"
    and region: "\<forall>k. k < 4 \<longrightarrow>
      (case channel_bounds (height rot) (width rot) ! k of
         (r0, r1, c0, c1) \<Rightarrow>
           r0 \<le> r1 \<and> r1 \<le> height rot \<and> c0 \<le> c1 \<and> c1 \<le> width rot \<and>
           shape (chs ! k) = (r1 - r0, c1 - c0) \<and>
           (\<forall>i j. i < r1 - r0 \<longrightarrow> j < c1 - c0 \<longrightarrow>
                  px (chs ! k) i j = px rot (r0 + i) (c0 + j)))"
    and one: "\<forall>r c. r < height rot \<longrightarrow> c < width rot \<longrightarrow>
      (\<exists>!k. k < 4 \<and> in_bounds (channel_bounds (height rot) (width rot) ! k) r c)"
    by blast
  have lt: "2 < height rot" "2 < width rot" using d by simp_all
  with one have "\<exists>!k. k < 4 \<and> in_bounds (channel_bounds (height rot) (width rot) ! k) 2 2"
    by blast
  moreover have "in_bounds (channel_bounds (height rot) (width rot) ! 2) 2 2"
    using d by (simp add: channel_bounds_nth)
  moreover have k2: "shape (chs ! 2) = (2, 2) \<and>
      (\<forall>i j. i < 2 \<longrightarrow> j < 2 \<longrightarrow> px (chs ! 2) i j = px rot (1 + i) (1 + j))"
    using region [rule_format, of 2] d by (simp add: channel_bounds_nth)
  moreover have "px (chs ! 2) 1 1 = px rot 2 2"
  proof -
    have "px (chs ! 2) 1 1 = px rot (Suc (Suc 0)) (Suc (Suc 0))"
      using k2 [THEN conjunct2, rule_format, of 1 1] by simp
    then show ?thesis by (simp add: numeral_2_eq_2)
  qed
  ultimately show ?thesis using a r lt by blast
qed

text \<open>
  The claim as stated, for every input frame, fails where the resize raises: with the
  target height 0 there are no quadrants.
\<close>

theorem quadrants_partition_counterexample:
  "rotate_and_split_into_channels (\<lambda>_ _ _ r c. 10 * r + c)
     \<lparr>height = 1, width = 1, pixels = [[0::nat]]\<rparr> 3 0 = Inl CvError"
  by (simp add: rotate_and_split_into_channels_def resize_and_rotate_def cv2_resize_def)

section \<open>The 1280 by 720 target\<close>

text \<open>
  Claim C5, as amended. With the target width 1280 and height 720 the rotated frame is
  720 wide and 1280 tall, its half-height is 640 and its half-width is 360, and each of
  the four channels is 360 pixels wide and 640 pixels tall.
\<close>

theorem quadrants_1280_720:
  assumes "height frame \<noteq> 0" "width frame \<noteq> 0"
  shows "\<exists>rot chs.
           resize_and_rotate interp frame 1280 720 = Inr rot \<and>
           width rot = 720 \<and> height rot = 1280 \<and>
           height rot div 2 = 640 \<and> width rot div 2 = 360 \<and>
           rotate_and_split_into_channels interp frame 1280 720 = Inr chs \<and>
           length chs = 4 \<and>
           (\<forall>ch \<in> set chs. width ch = 360 \<and> height ch = 640)"
proof -
  obtain img where img: "cv2_resize interp frame (1280, 720) = Inr img"
    using assms cv2_resize_returns_iff [of interp frame 1280 720] by auto
  obtain rot where rot: "resize_and_rotate interp frame 1280 720 = Inr rot"
      "height rot = nat 1280" "width rot = nat 720"
      "rotate_and_split_into_channels interp frame 1280 720 = Inr (split_into_channels rot)"
    using rotate_and_split_on_resize [OF img] by auto
  have "\<forall>ch \<in> set (split_into_channels rot). width ch = 360 \<and> height ch = 640"
    using rot(2,3) by (simp add: split_into_channels_def Let_def shape_slice2)
  moreover have "length (split_into_channels rot) = 4"
    by (simp add: split_into_channels_def Let_def)
  ultimately show ?thesis using rot by simp
qed

theorem quadrants_1280_720_witness:
  "height \<lparr>height = 1, width = 1, pixels = [[0::nat]]\<rparr> \<noteq> 0 \<and>
   width \<lparr>height = 1, width = 1, pixels = [[0::nat]]\<rparr> \<noteq> 0 \<and>
   (\<exists>chs.
      rotate_and_split_into_channels (\<lambda>_ _ _ r c. 10 * r + c)
        \<lparr>height = 1, width = 1, pixels = [[0::nat]]\<rparr> 1280 720 = Inr chs \<and>
      length chs = 4 \<and> list_all (\<lambda>ch. width ch = 360 \<and> height ch = 640) chs)"
proof -
  let ?I = "\<lambda>(_::nat frame) (_::nat) (_::nat) r c. 10 * r + (c::nat)"
  let ?F = "\<lparr>height = 1, width = 1, pixels = [[0::nat]]\<rparr>"
  have a: "height ?F \<noteq> 0" "width ?F \<noteq> 0"
    by simp_all
  from quadrants_1280_720 [OF a, of ?I]
  obtain chs :: "nat frame list" where
    r: "rotate_and_split_into_channels ?I ?F 1280 720 = Inr chs" "length chs = 4"
      "\<forall>ch \<in> set chs. width ch = 360 \<and> height ch = 640"
    by blast
  from r(3) have "list_all (\<lambda>ch. width ch = 360 \<and> height ch = 640) chs"
    by (simp add: list_all_iff)
  with a r(1,2) show ?thesis by blast
qed

theorem quadrants_1280_720_counterexample:
  "map_sum id (map shape)
     (rotate_and_split_into_channels (\<lambda>_ _ _ r c. 10 * r + c)
        \<lparr>height = 1, width = 1, pixels = [[0::nat]]\<rparr> 1280 720) =
     Inr [(640, 360), (640, 360), (640, 360), (640, 360)] \<and>
   map_sum id (map shape)
     (rotate_and_split_into_channels (\<lambda>_ _ _ r c. 10 * r + c)
        \<lparr>height = 1, width = 1, pixels = [[0::nat]]\<rparr> 1280 720) \<noteq>
     Inr [(360, 640), (360, 640), (360, 640), (360, 640)]"
  by (simp add: rotate_and_split_into_channels_def resize_and_rotate_def cv2_resize_def
      cv2_rotate_def cv2_flip_def cv2_transpose_def split_into_channels_def slice2_def
      shape_def Let_def)

section \<open>Rejected requests\<close>

text \<open>
  Claim C7. When the channel argument of \<open>capture_channel_from_frame\<close> is not one of 1,
  2, 3, 4, the function returns False and makes no call at all: the video is not
  opened, nothing is sought or read, and no error is raised.
\<close>

theorem invalid_channel_rejected:
  assumes "channel \<notin> {1, 2, 3, 4}"
  shows "capture_channel_from_frame interp h v frame_number channel output_path
           IMAGE_WIDTH IMAGE_HEIGHT = (Inr False, [])"
  using assms by (simp add: capture_channel_from_frame_def)

theorem invalid_channel_rejected_witness:
  "(5::int) \<notin> {1, 2, 3, 4} \<and>
   capture_channel_from_frame (\<lambda>_ _ _ r c. 10 * r + c)
     \<lparr>can_makedirs = (\<lambda>_. True), has_encoder = (\<lambda>_. True)\<rparr>
     \<lparr>opens = True, prop_frame_count = 1, prop_frame_width = 1, prop_frame_height = 1,
      stream = [Some \<lparr>height = 1, width = 1, pixels = [[0::nat]]\<rparr>]\<rparr>
     0 5 None None None = (Inr False, [])"
proof -
  have a: "(5::int) \<notin> {1, 2, 3, 4}" by simp
  from invalid_channel_rejected [OF a] a show ?thesis by blast
qed

text \<open>
  Claim C8. For a video that opens, with reported frame count T, a requested frame
  index n with n \<ge> T or n < 0 makes \<open>capture_specific_frame\<close> and
  \<open>capture_channel_from_frame\<close> (which opens the video only for a channel in 1..4)
  return False after exactly two calls: the opening of the video and the release of the
  handle; nothing is sought or read.
\<close>

theorem out_of_range_frame_rejected:
  assumes "opens v" "frame_number \<ge> prop_frame_count v \<or> frame_number < 0"
    and "channel \<in> {1, 2, 3, 4}"
  shows "capture_specific_frame h v frame_number path = (Inr False, [Open, Release]) \<and>
         capture_channel_from_frame interp h v frame_number channel output_path
           IMAGE_WIDTH IMAGE_HEIGHT = (Inr False, [Open, Release])"
  using assms by (auto simp: capture_specific_frame_def capture_channel_from_frame_def Let_def)

theorem out_of_range_frame_rejected_witness:
  "opens \<lparr>opens = True, prop_frame_count = 1, prop_frame_width = 1, prop_frame_height = 1,
      stream = [Some \<lparr>height = 1, width = 1, pixels = [[0::nat]]\<rparr>]\<rparr> \<and>
   (1::int) \<ge> prop_frame_count
      \<lparr>opens = True, prop_frame_count = 1, prop_frame_width = 1, prop_frame_height = 1,
       stream = [Some \<lparr>height = 1, width = 1, pixels = [[0::nat]]\<rparr>]\<rparr> \<and>
   (2::int) \<in> {1, 2, 3, 4} \<and>
   capture_specific_frame
     \<lparr>can_makedirs = (\<lambda>_. True), has_encoder = (\<lambda>_. True)\<rparr>
     \<lparr>opens = True, prop_frame_count = 1, prop_frame_width = 1, prop_frame_height = 1,
      stream = [Some \<lparr>height = 1, width = 1, pixels = [[0::nat]]\<rparr>]\<rparr>
     1 ''captured_frame.jpg'' = (Inr False, [Open, Release]) \<and>
   capture_channel_from_frame (\<lambda>_ _ _ r c. 10 * r + c)
     \<lparr>can_makedirs = (\<lambda>_. True), has_encoder = (\<lambda>_. True)\<rparr>
     \<lparr>opens = True, prop_frame_count = 1, prop_frame_width = 1, prop_frame_height = 1,
      stream = [Some \<lparr>height = 1, width = 1, pixels = [[0::nat]]\<rparr>]\<rparr>
     1 2 None None None = (Inr False, [Open, Release])"
proof -
  let ?v = "\<lparr>opens = True, prop_frame_count = 1, prop_frame_width = 1, prop_frame_height = 1,
      stream = [Some \<lparr>height = 1, width = 1, pixels = [[0::nat]]\<rparr>]\<rparr>"
  have a: "opens ?v" "(1::int) \<ge> prop_frame_count ?v \<or> (1::int) < 0" "(2::int) \<in> {1, 2, 3, 4}"
    by simp_all
  have b: "(1::int) \<ge> prop_frame_count ?v" by simp
  from out_of_range_frame_rejected [OF a] a(1,3) b show ?thesis by blast
qed

section \<open>Extracting several frames\<close>




text \<open>
  When \<open>os.makedirs\<close> raises, as it does for the empty path, the function ends with
  that error before the video is opened.
\<close>

lemma capture_multiple_frames_makedirs_raises:
  "os_makedirs h output_dir = Some e \<Longrightarrow>
   capture_multiple_frames h v frame_numbers output_dir = (Inl e, [])"
  by (simp add: capture_multiple_frames_def)

lemma os_makedirs_empty_path: "os_makedirs h [] = Some FileNotFoundError"
  by (simp add: os_makedirs_def)


section \<open>Numbering the frames of a video\<close>

text \<open>
  When the container reports a frame count other than zero, the loop writes one
  annotated frame per frame read, in order, and the text drawn on the k-th is the
  counter k, starting at the counter the loop is entered with.
\<close>

lemma annotate_loop_counts:
  assumes "total_frames \<noteq> 0" "rest = [] \<or> (\<exists>t. rest = None # t)"
  shows "annotate_loop draw total_frames (map Some fs @ rest) k out =
           (Inr (k + int (length fs)),
            out @ map (\<lambda>i. draw (''Frame: '' @ py_str (k + int i)) (fs ! i)) [0..<length fs])"
proof (induction fs arbitrary: k out)
  case Nil
  from assms(2) show ?case by auto
next
  case (Cons f fs)
  have "annotate_loop draw total_frames (map Some (f # fs) @ rest) k out =
      annotate_loop draw total_frames (map Some fs @ rest) (k + 1)
        (out @ [draw (''Frame: '' @ py_str k) f])"
    using assms(1) by (simp add: Let_def)
  also have "\<dots> = (Inr (k + 1 + int (length fs)),
      (out @ [draw (''Frame: '' @ py_str k) f]) @
      map (\<lambda>i. draw (''Frame: '' @ py_str (k + 1 + int i)) (fs ! i)) [0..<length fs])"
    by (rule Cons.IH)
  also have "\<dots> = (Inr (k + int (length (f # fs))),
      out @ map (\<lambda>i. draw (''Frame: '' @ py_str (k + int i)) ((f # fs) ! i))
              [0..<length (f # fs)])"
    by (simp add: map_upt_Suc add.assoc del: upt_Suc)
  finally show ?case .
qed

lemma add_frame_numbers_counts:
  assumes "opens v" "prop_frame_count v \<noteq> 0"
    and "stream v = map Some fs @ rest" "rest = [] \<or> (\<exists>t. rest = None # t)"
  shows "add_frame_numbers_to_video draw v True =
           (Inr True, map (\<lambda>i. draw (''Frame: '' @ py_str (int i)) (fs ! i)) [0..<length fs])"
  using assms(1,3) annotate_loop_counts [OF assms(2,4), of draw fs 0 "[]"]
  by (simp add: add_frame_numbers_to_video_def)

text \<open>
  Claim C6. A video of N readable frames should give N annotated frames, numbered from
  0, with no error raised by the loop. The progress message of line 98 divides by the
  frame count the container reports: for a video of 30 readable frames whose container
  reports 0 frames, the 30th pass raises ZeroDivisionError after the 30th frame was
  written, and the function does not return.
\<close>

theorem progress_division_by_zero:
  "add_frame_numbers_to_video (\<lambda>text frame. frame\<lparr>pixels := [text]\<rparr>)
     \<lparr>opens = True, prop_frame_count = 0, prop_frame_width = 1, prop_frame_height = 7,
      stream = replicate 30 (Some \<lparr>height = 1, width = 7, pixels = [[]]\<rparr>)\<rparr> True =
   (Inl ZeroDivisionError,
    map (\<lambda>k. \<lparr>height = 1, width = 7, pixels = [''Frame: '' @ py_str (int k)]\<rparr>) [0..<30]) \<and>
   py_str 0 = ''0'' \<and> py_str 29 = ''29''"
  by code_simp

end
